theory Spec2Isabelle
  imports Complex_Main
begin

section \<open>Constants and the pitch table\<close>

text \<open>
  The component under study is
  \<^verbatim>\<open>src/components/enhanced-interactive-piano-roll-with-pythagorean-chords.tsx\<close>.
  JavaScript numbers that hold grid indices are modelled as \<open>int\<close>, pixel coordinates
  and times as \<open>real\<close>; an array read out of range gives \<open>undefined\<close>, which is
  \<open>None\<close> here. Drawing on the two canvases (\<open>drawGrid\<close>, \<open>drawNote\<close>, \<open>drawAllNotes\<close>)
  changes no state and is left out.
\<close>

definition NOTES :: "string list" where
  "NOTES = [''C'', ''C#'', ''D'', ''D#'', ''E'', ''F'', ''F#'', ''G'', ''G#'', ''A'', ''A#'', ''B'']"

definition OCTAVES :: nat where
  "OCTAVES = 7"

definition MEASURES :: int where
  "MEASURES = 4"

definition BEATS_PER_MEASURE :: int where
  "BEATS_PER_MEASURE = 4"

definition CELL_SIZE :: real where
  "CELL_SIZE = 25"

text \<open>Decimal rendering of a number inside a template string.\<close>

fun string_of_nat :: "nat \<Rightarrow> string" where
  "string_of_nat n =
     (if n < 10 then [''0123456789'' ! n]
      else string_of_nat (n div 10) @ [''0123456789'' ! (n mod 10)])"

declare string_of_nat.simps [simp del]

text \<open>
  The value the module-level array \<open>allNotes\<close> is created with (lines 23 to 25):
  for each octave index the twelve names with the octave number \<open>octave + 2\<close> appended.
\<close>

definition allNotes_initial :: "string list" where
  "allNotes_initial =
     concat (map (\<lambda>octave. map (\<lambda>n. n @ string_of_nat (octave + 2)) NOTES) [0..<OCTAVES])"

text \<open>\<open>arr[i]\<close>: the element, or \<open>undefined\<close> outside the array.\<close>

definition at_index :: "'a list \<Rightarrow> int \<Rightarrow> 'a option" where
  "at_index xs i = (if 0 \<le> i \<and> i < int (length xs) then Some (xs ! nat i) else None)"

text \<open>\<open>arr.indexOf(x)\<close>: the first position of \<open>x\<close>, or \<open>-1\<close>.\<close>

fun indexOf :: "'a list \<Rightarrow> 'a \<Rightarrow> int" where
  "indexOf [] x = - 1"
| "indexOf (y # ys) x =
     (if y = x then 0 else (let i = indexOf ys x in if i = - 1 then - 1 else i + 1))"

section \<open>Binary64 arithmetic\<close>

text \<open>
  Products and quotients of JavaScript numbers are rounded to binary64. \<open>fl64\<close> rounds a
  real to the nearest binary64 value, ties to the even significand; overflow and subnormal
  numbers are left out: the numbers rounded here are 0 or lie far inside the normal range.
  \<open>ilog2 x\<close> is the exponent of the leading bit of a positive \<open>x\<close>.
\<close>

function ilog2 :: "real \<Rightarrow> int" where
  "ilog2 x =
     (if x \<le> 0 then 0
      else if 2 \<le> x then ilog2 (x / 2) + 1
      else if x < 1 then ilog2 (2 * x) - 1
      else 0)"
  by pat_completeness auto
termination
proof (relation "measure (\<lambda>x. nat \<bar>\<lfloor>log 2 x\<rfloor>\<bar>)")
  show "wf (measure (\<lambda>x. nat \<bar>\<lfloor>log 2 x\<rfloor>\<bar>))" by simp
next
  fix x :: real
  assume "\<not> x \<le> 0" and "2 \<le> x"
  then have "log 2 (x / 2) = log 2 x - 1" and "1 \<le> log 2 x"
    by (simp_all add: log_divide le_log_iff)
  then have "\<lfloor>log 2 (x / 2)\<rfloor> = \<lfloor>log 2 x\<rfloor> - 1" and "1 \<le> \<lfloor>log 2 x\<rfloor>"
    by (simp_all add: le_floor_iff)
  then show "(x / 2, x) \<in> measure (\<lambda>x. nat \<bar>\<lfloor>log 2 x\<rfloor>\<bar>)"
    by simp
next
  fix x :: real
  assume "\<not> x \<le> 0" and "\<not> 2 \<le> x" and "x < 1"
  then have l: "log 2 (2 * x) = 1 + log 2 x" "log 2 x < 0"
    by (simp_all add: log_mult)
  have "\<lfloor>log 2 (2 * x)\<rfloor> = \<lfloor>log 2 x\<rfloor> + 1"
    using l(1) by simp
  moreover have "\<lfloor>log 2 x\<rfloor> < 0"
    using l(2) by (simp add: floor_less_iff)
  ultimately have "nat \<bar>\<lfloor>log 2 (2 * x)\<rfloor>\<bar> < nat \<bar>\<lfloor>log 2 x\<rfloor>\<bar>"
    by linarith
  then show "(2 * x, x) \<in> measure (\<lambda>x. nat \<bar>\<lfloor>log 2 x\<rfloor>\<bar>)"
    by (simp only: in_measure)
qed

declare ilog2.simps [simp del]

definition round_half_even :: "real \<Rightarrow> int" where
  "round_half_even x =
     (let f = \<lfloor>x\<rfloor>; d = x - of_int f
      in if d < 1 / 2 then f
         else if d > 1 / 2 then f + 1
         else if even f then f else f + 1)"

definition fl64 :: "real \<Rightarrow> real" where
  "fl64 x =
     (if x = 0 then 0
      else let e = ilog2 \<bar>x\<bar> - 52
           in of_int (round_half_even (x / 2 powi e)) * 2 powi e)"

section \<open>Notes and the component state\<close>

text \<open>
  Identifiers are template strings over the clock and the random generator. The
  constructors keep the template and its holes:
  \<^verbatim>\<open>note-${Date.now()}\<close>, \<^verbatim>\<open>note-${Date.now()}-${Math.random()}\<close>,
  \<^verbatim>\<open>pythagorean-${Date.now()}-${index}\<close> and \<^verbatim>\<open>pythagorean-${Date.now()}-base\<close>.
\<close>

datatype note_id =
    NoteId int
  | MidiNoteId int real
  | PythagoreanId int nat
  | PythagoreanBaseId int

text \<open>
  The interface \<open>Note\<close> (lines 27 to 35). The field \<open>note\<close> is \<open>note_name\<close> here; it
  is optional because \<open>allNotes[rowIndex]\<close> is \<open>undefined\<close> for a row outside the table.
\<close>

record Note =
  note_id :: note_id
  note_name :: "string option"
  start :: int
  duration :: int
  rowIndex :: int
  colIndex :: int
  selected :: bool

text \<open>What the handlers send to the synthesiser, the console and the toast area.\<close>

datatype effect =
    TriggerAttackRelease "string option" string
  | ConsoleError string string
  | Toast string string bool

text \<open>
  The state the handlers read and write: the hooks of the component (lines 160 to 171),
  the module-level array \<open>allNotes\<close>, which \<open>Piano\<close> reverses in place, and the trace of
  effects. The hook \<open>notes\<close> is the field \<open>notesArr\<close>; \<open>synth\<close> and \<open>notesCanvasRef\<close>
  say whether the synthesiser and the canvas element exist. \<open>pendingImports\<close> holds, for
  every call of \<open>handleMidiUpload\<close> that waits for its file at line 383, the
  \<open>numberOfColumns\<close> of the call's closure.
\<close>

record state =
  synth :: bool
  activeNotes :: "string option list"
  notesArr :: "Note list"
  isDragging :: bool
  isResizing :: bool
  selectedNote :: "Note option"
  numberOfColumns :: int
  notesCanvasRef :: bool
  allNotes :: "string list"
  effects :: "effect list"
  pendingImports :: "int list"

text \<open>The state of the first render: the hooks' initial values and a fresh table.\<close>

definition initial_state :: state where
  "initial_state =
     \<lparr> synth = False, activeNotes = [], notesArr = [], isDragging = False, isResizing = False,
       selectedNote = None, numberOfColumns = MEASURES * BEATS_PER_MEASURE * 4,
       notesCanvasRef = False, allNotes = allNotes_initial, effects = [],
       pendingImports = [] \<rparr>"

text \<open>
  One call of the function component \<open>Piano\<close> (line 44): \<open>allNotes.reverse()\<close> reverses
  the shared array in place before mapping over it.
\<close>

definition Piano :: "state \<Rightarrow> state" where
  "Piano s = s\<lparr>allNotes := rev (allNotes s)\<rparr>"

text \<open>
  After the first commit the canvas reference is attached and the effect of lines 173
  to 180 stores the synthesiser.
\<close>

definition mounted :: "state \<Rightarrow> state" where
  "mounted s = s\<lparr>notesCanvasRef := True, synth := True\<rparr>"

section \<open>Pointer handlers\<close>

text \<open>\<open>playNote\<close> (lines 203 to 208).\<close>

definition playNote :: "string option \<Rightarrow> state \<Rightarrow> state" where
  "playNote n s =
     (if synth s
      then s\<lparr>effects := effects s @ [TriggerAttackRelease n ''8n''],
             activeNotes := activeNotes s @ [n]\<rparr>
      else s)"

text \<open>
  The predicate both \<open>notes.find\<close> calls use (lines 231 to 235 and 274 to 278): the
  note is on the row and its span of columns holds the column.
\<close>

definition covers :: "int \<Rightarrow> int \<Rightarrow> Note \<Rightarrow> bool" where
  "covers row col n = (rowIndex n = row \<and> col \<ge> colIndex n \<and> col < colIndex n + duration n)"

text \<open>
  \<open>handleCanvasClick\<close> (lines 222 to 263). \<open>x\<close> and \<open>y\<close> are the pointer's coordinates
  relative to the canvas, \<open>now\<close> is \<open>Date.now()\<close>.
\<close>

definition handleCanvasClick :: "int \<Rightarrow> real \<Rightarrow> real \<Rightarrow> state \<Rightarrow> state" where
  "handleCanvasClick now x y s =
     (if \<not> notesCanvasRef s then s
      else
        let col = \<lfloor>x / CELL_SIZE\<rfloor>;
            row = \<lfloor>y / CELL_SIZE\<rfloor>
        in case find (covers row col) (notesArr s) of
             Some clickedNote \<Rightarrow>
               s\<lparr>selectedNote := Some clickedNote,
                 notesArr := map (\<lambda>n. n\<lparr>selected := (note_id n = note_id clickedNote)\<rparr>) (notesArr s)\<rparr>
           | None \<Rightarrow>
               if \<not> isDragging s \<and> \<not> isResizing s then
                 let newNote = \<lparr> note_id = NoteId now, note_name = at_index (allNotes s) row,
                                 start = col, duration = 1, rowIndex = row, colIndex = col,
                                 selected = True \<rparr>;
                     s1 = s\<lparr>notesArr := map (\<lambda>n. n\<lparr>selected := False\<rparr>) (notesArr s) @ [newNote],
                            selectedNote := Some newNote\<rparr>;
                     s2 = playNote (note_name newNote) s1
                 in if col \<ge> numberOfColumns s - 1
                    then s2\<lparr>numberOfColumns := numberOfColumns s2 + 50\<rparr>
                    else s2
               else s)"

text \<open>\<open>handleMouseDown\<close> (lines 265 to 289).\<close>

definition handleMouseDown :: "real \<Rightarrow> real \<Rightarrow> state \<Rightarrow> state" where
  "handleMouseDown x y s =
     (if \<not> notesCanvasRef s then s
      else
        let col = \<lfloor>x / CELL_SIZE\<rfloor>;
            row = \<lfloor>y / CELL_SIZE\<rfloor>
        in case find (covers row col) (notesArr s) of
             Some clickedNote \<Rightarrow>
               let isResizeHandle =
                     (x - of_int (colIndex clickedNote) * CELL_SIZE
                        > of_int (duration clickedNote) * CELL_SIZE - 5)
               in if isResizeHandle
                  then s\<lparr>selectedNote := Some clickedNote, isResizing := True\<rparr>
                  else s\<lparr>selectedNote := Some clickedNote, isDragging := True\<rparr>
           | None \<Rightarrow> s)"

text \<open>\<open>handleMouseMove\<close> (lines 291 to 317).\<close>

definition handleMouseMove :: "real \<Rightarrow> real \<Rightarrow> state \<Rightarrow> state" where
  "handleMouseMove x y s =
     (case selectedNote s of
        Some sel \<Rightarrow>
          if (isDragging s \<or> isResizing s) \<and> notesCanvasRef s then
            let newColIndex = \<lfloor>x / CELL_SIZE\<rfloor>;
                newRowIndex = \<lfloor>y / CELL_SIZE\<rfloor>
            in if isDragging s then
                 s\<lparr>notesArr := map (\<lambda>n. if note_id n = note_id sel
                                      then n\<lparr>colIndex := newColIndex, rowIndex := newRowIndex,
                                             note_name := at_index (allNotes s) newRowIndex\<rparr>
                                      else n) (notesArr s)\<rparr>
               else if isResizing s then
                 let newDuration = max 1 (newColIndex - colIndex sel + 1)
                 in s\<lparr>notesArr := map (\<lambda>n. if note_id n = note_id sel
                                         then n\<lparr>duration := newDuration\<rparr>
                                         else n) (notesArr s)\<rparr>
               else s
          else s
      | None \<Rightarrow> s)"

text \<open>\<open>handleMouseUp\<close> (lines 319 to 322).\<close>

definition handleMouseUp :: "state \<Rightarrow> state" where
  "handleMouseUp s = s\<lparr>isDragging := False, isResizing := False\<rparr>"

text \<open>
  The arrow function the resize branch maps over the notes (lines 308 to 312), for the
  identifier of the selected note and the new duration.
\<close>

definition resized :: "note_id \<Rightarrow> int \<Rightarrow> Note \<Rightarrow> Note" where
  "resized i d n = (if note_id n = i then n\<lparr>duration := d\<rparr> else n)"

section \<open>Buttons\<close>

text \<open>\<open>clearAllNotes\<close> (lines 354 to 357).\<close>

definition clearAllNotes :: "state \<Rightarrow> state" where
  "clearAllNotes s = s\<lparr>notesArr := []\<rparr>"

text \<open>
  \<open>addRandomNote\<close> (lines 359 to 376). \<open>r1\<close>, \<open>r2\<close> and \<open>r3\<close> are the three results of
  \<open>Math.random()\<close>, each in the interval from 0 (included) to 1 (excluded); the three
  products are binary64 products.
\<close>

definition addRandomNote :: "int \<Rightarrow> real \<Rightarrow> real \<Rightarrow> real \<Rightarrow> state \<Rightarrow> state" where
  "addRandomNote now r1 r2 r3 s =
     (let row = \<lfloor>fl64 (r1 * of_nat (length (allNotes s)))\<rfloor>;
          col = \<lfloor>fl64 (r2 * of_int (numberOfColumns s))\<rfloor>;
          dur = \<lfloor>fl64 (r3 * 4)\<rfloor> + 1;
          newNote = \<lparr> note_id = NoteId now, note_name = at_index (allNotes s) row,
                      start = col, duration = dur, rowIndex = row, colIndex = col,
                      selected = False \<rparr>
      in s\<lparr>notesArr := notesArr s @ [newNote]\<rparr>)"

section \<open>MIDI import\<close>

text \<open>
  What the decoder returns: tracks of notes with a pitch name, a start time and a
  duration. The fields \<open>name\<close>, \<open>time\<close> and \<open>duration\<close> of a decoded note carry the
  prefix \<open>midi_\<close>, the field \<open>notes\<close> of a track is \<open>track_notes\<close>.
\<close>

record MidiNote =
  midi_name :: string
  midi_time :: real
  midi_duration :: real

record Track =
  track_notes :: "MidiNote list"

record Midi =
  tracks :: "Track list"

text \<open>
  The body of the inner \<open>forEach\<close> (lines 390 to 410), on the pair of \<open>newNotes\<close> and
  \<open>maxColumn\<close>. The clock and the random generator are read once for each note that is
  pushed: \<open>now k\<close> and \<open>rnd k\<close> are their values when \<open>k\<close> notes have been pushed.
\<close>

definition pushMidiNote ::
  "(nat \<Rightarrow> int) \<Rightarrow> (nat \<Rightarrow> real) \<Rightarrow> string list \<Rightarrow> MidiNote \<Rightarrow> Note list \<times> int \<Rightarrow> Note list \<times> int"
where
  "pushMidiNote now rnd tbl midiNote acc =
     (case acc of (newNotes, maxColumn) \<Rightarrow>
        let noteName = midi_name midiNote;
            st = \<lfloor>midi_time midiNote * 4\<rfloor>;
            dur = \<lceil>midi_duration midiNote * 4\<rceil>;
            row = indexOf tbl noteName;
            col = st
        in if row \<noteq> - 1
           then (newNotes @
                   [\<lparr> note_id = MidiNoteId (now (length newNotes)) (rnd (length newNotes)),
                      note_name = Some noteName, start = st, duration = dur,
                      rowIndex = row, colIndex = col, selected = False \<rparr>],
                 max maxColumn (col + dur))
           else (newNotes, maxColumn))"

text \<open>The two nested loops over \<open>midi.tracks\<close> (lines 386 to 411).\<close>

definition collectMidiNotes ::
  "(nat \<Rightarrow> int) \<Rightarrow> (nat \<Rightarrow> real) \<Rightarrow> string list \<Rightarrow> Midi \<Rightarrow> Note list \<times> int"
where
  "collectMidiNotes now rnd tbl midi =
     fold (\<lambda>track acc. fold (pushMidiNote now rnd tbl) (track_notes track) acc)
       (tracks midi) ([], 0)"

text \<open>
  \<open>handleMidiUpload\<close> (lines 378 to 429). The argument \<open>file\<close> is \<open>None\<close> when no
  file was chosen, \<open>Some (Inl e)\<close> when reading or decoding the file throws \<open>e\<close>, and
  \<open>Some (Inr midi)\<close> when the decoder returns \<open>midi\<close>. With a file the call waits at
  line 383 until the file is read, and other events may run meanwhile: \<open>s\<close> is the state
  when the call goes on after the wait, and \<open>closureColumns\<close> is the \<open>numberOfColumns\<close>
  of the call's closure, the column count when the handler was called. Line 414 writes
  the maximum with that number, not with the count of \<open>s\<close>.
\<close>

definition handleMidiUpload ::
  "(nat \<Rightarrow> int) \<Rightarrow> (nat \<Rightarrow> real) \<Rightarrow> int \<Rightarrow> (string + Midi) option \<Rightarrow> state \<Rightarrow> state"
where
  "handleMidiUpload now rnd closureColumns file s =
     (case file of
        None \<Rightarrow> s
      | Some (Inl error) \<Rightarrow>
          s\<lparr>effects := effects s @
               [ConsoleError ''Error parsing MIDI file:'' error,
                Toast ''Error uploading MIDI file''
                  ''There was a problem processing the MIDI file. Please try again with a different file.''
                  True]\<rparr>
      | Some (Inr midi) \<Rightarrow>
          (case collectMidiNotes now rnd (allNotes s) midi of
             (newNotes, maxColumn) \<Rightarrow>
               s\<lparr>notesArr := newNotes,
                 numberOfColumns := max closureColumns (maxColumn + 1),
                 effects := effects s @
                   [Toast ''MIDI file uploaded successfully''
                      (''Loaded '' @ string_of_nat (length newNotes) @ '' notes from the MIDI file.'')
                      False]\<rparr>))"

text \<open>
  A call of \<open>handleMidiUpload\<close> with a file, up to the wait of line 383: the call is
  suspended with the column count of its closure.
\<close>

definition awaitFile :: "state \<Rightarrow> state" where
  "awaitFile s = s\<lparr>pendingImports := pendingImports s @ [numberOfColumns s]\<rparr>"

text \<open>
  The suspended call number \<open>k\<close> goes on: its file was read and decoded, or that threw.
\<close>

definition fileRead :: "(nat \<Rightarrow> int) \<Rightarrow> (nat \<Rightarrow> real) \<Rightarrow> nat \<Rightarrow> string + Midi \<Rightarrow> state \<Rightarrow> state" where
  "fileRead now rnd k result s =
     (if k < length (pendingImports s)
      then handleMidiUpload now rnd (pendingImports s ! k) (Some result)
             (s\<lparr>pendingImports := take k (pendingImports s) @ drop (Suc k) (pendingImports s)\<rparr>)
      else s)"

section \<open>Pythagorean chords\<close>

text \<open>
  The frequencies are binary64 numbers: the literal, the four quotients and the product
  are each rounded by \<open>fl64\<close>.
\<close>

text \<open>The literal \<open>261.63\<close> (line 433).\<close>

definition baseFrequency :: real where
  "baseFrequency = fl64 (26163 / 100)"

text \<open>The table of lines 435 to 440; each ratio is one binary64 division.\<close>

definition pythagoreanRatios :: "(string \<times> real) list" where
  "pythagoreanRatios =
     [(''Perfect Fourth'', fl64 (4 / 3)),
      (''Perfect Fifth'', fl64 (3 / 2)),
      (''Major Third'', fl64 (81 / 64)),
      (''Minor Third'', fl64 (32 / 27))]"

text \<open>\<open>baseFrequency * interval.ratio\<close> (line 445), one binary64 product.\<close>

definition intervalFrequency :: "real \<Rightarrow> real" where
  "intervalFrequency ratio = fl64 (baseFrequency * ratio)"

text \<open>
  \<open>addPythagoreanChords\<close> (lines 431 to 477). \<open>toNote f\<close> stands for the audio library's
  \<open>Tone.Frequency(f).toNote()\<close>, and \<open>now k\<close> is the clock at the push number \<open>k\<close>.
\<close>

definition addPythagoreanChords :: "(real \<Rightarrow> string) \<Rightarrow> (nat \<Rightarrow> int) \<Rightarrow> state \<Rightarrow> state" where
  "addPythagoreanChords toNote now s =
     (let baseNote = ''C4'';
          newChords =
            map (\<lambda>(index, interval).
                   let frequency = intervalFrequency (snd interval);
                       n = toNote frequency
                   in \<lparr> note_id = PythagoreanId (now index) index, note_name = Some n,
                        start = int index * 4, duration = 4,
                        rowIndex = indexOf (allNotes s) n, colIndex = int index * 4,
                        selected = False \<rparr>)
              (enumerate 0 pythagoreanRatios)
            @ [\<lparr> note_id = PythagoreanBaseId (now (length pythagoreanRatios)),
                  note_name = Some baseNote, start = 0, duration = 16,
                  rowIndex = indexOf (allNotes s) baseNote, colIndex = 0,
                  selected = False \<rparr>]
      in s\<lparr>notesArr := notesArr s @ newChords,
           effects := effects s @
             [Toast ''Pythagorean chords added''
                ''Added Perfect Fourth, Perfect Fifth, Major Third, and Minor Third chords.''
                False]\<rparr>)"

section \<open>Staff view\<close>

text \<open>\<open>getDuration\<close> (lines 113 to 118).\<close>

definition getDuration :: "real \<Rightarrow> string" where
  "getDuration d =
     (if d \<ge> 4 then ''w'' else if d \<ge> 2 then ''h'' else if d \<ge> 1 then ''q'' else ''8'')"

text \<open>
  The length of a duration symbol in beat units (quarter notes), as the notation reads
  it: whole, half, quarter and eighth note.
\<close>

definition beatsOfSymbol :: "string \<Rightarrow> real" where
  "beatsOfSymbol symbol =
     (if symbol = ''w'' then 4 else if symbol = ''h'' then 2
      else if symbol = ''q'' then 1 else 1 / 2)"

text \<open>A stave note as \<open>splitNote\<close> builds it: the three arguments of the constructor.\<close>

record StaveNote =
  clef :: string
  keys :: "string list"
  vf_duration :: string

datatype js_error = TypeError

text \<open>
  The loop of \<open>splitNote\<close> (lines 125 to 140) on \<open>remainingDuration\<close> and \<open>result\<close>;
  \<open>baseNote\<close> is the variable of the enclosing closure. The notation library has no
  \<open>TieNote\<close>, so \<open>new Vex.Flow.TieNote()\<close> at line 135 throws a \<open>TypeError\<close>: the round
  that finds \<open>result\<close> not empty ends the function with the error.
\<close>

function splitNote_loop :: "string \<Rightarrow> real \<Rightarrow> StaveNote list \<Rightarrow> js_error + StaveNote list" where
  "splitNote_loop baseNote remainingDuration result =
     (if remainingDuration > 0 then
        let currentDuration = min remainingDuration 4;
            vfDuration = getDuration currentDuration;
            newNote = \<lparr> clef = ''treble'', keys = [baseNote], vf_duration = vfDuration \<rparr>
        in if length result > 0 then Inl TypeError
           else splitNote_loop baseNote (remainingDuration - currentDuration) (result @ [newNote])
      else Inr result)"
  by pat_completeness auto
termination
proof (relation "measure (\<lambda>(b, r, res). nat \<lceil>r\<rceil>)")
  show "wf (measure (\<lambda>(b, r, res). nat \<lceil>r\<rceil>))" by simp
next
  fix baseNote :: string and remainingDuration :: real and result :: "StaveNote list"
    and x xa xb
  assume pos: "0 < remainingDuration" and x: "x = min remainingDuration 4"
  have up: "0 < \<lceil>remainingDuration\<rceil>"
    using pos by (simp add: less_ceiling_iff)
  have "\<lceil>remainingDuration - x\<rceil> < \<lceil>remainingDuration\<rceil>"
  proof (cases "remainingDuration \<le> 4")
    case True
    then have "remainingDuration - x = 0"
      using x by simp
    then show ?thesis
      using up by simp
  next
    case False
    then have "x = 4"
      using x by simp
    then have "\<lceil>remainingDuration - x\<rceil> = \<lceil>remainingDuration\<rceil> - 4"
      by simp
    then show ?thesis
      by simp
  qed
  then have "nat \<lceil>remainingDuration - x\<rceil> < nat \<lceil>remainingDuration\<rceil>"
    using up by linarith
  then show "((baseNote, remainingDuration - x, result @ [xb]), baseNote, remainingDuration, result)
      \<in> measure (\<lambda>(b, r, res). nat \<lceil>r\<rceil>)"
    by simp
qed

declare splitNote_loop.simps [simp del]

text \<open>\<open>splitNote\<close> (lines 121 to 143).\<close>

definition splitNote :: "string \<Rightarrow> real \<Rightarrow> js_error + StaveNote list" where
  "splitNote baseNote d = splitNote_loop baseNote d []"

section \<open>Events\<close>

text \<open>
  Everything that changes the state: the first commit, a call of \<open>Piano\<close> (one for each
  render of the component), the pointer events of the canvas and the buttons. The file
  input gives three events: a change without a file, a change with a file (the import
  starts and waits), and the end of a file read (the import number \<open>k\<close> goes on).
\<close>

datatype event =
    Mounted
  | PianoRender
  | CanvasClick int real real
  | MouseDown real real
  | MouseMove real real
  | MouseUp
  | ClearAllNotes
  | AddRandomNote int real real real
  | MidiNoFile
  | MidiFileChosen
  | MidiFileRead "nat \<Rightarrow> int" "nat \<Rightarrow> real" nat "string + Midi"
  | AddPythagoreanChords "real \<Rightarrow> string" "nat \<Rightarrow> int"

fun step :: "event \<Rightarrow> state \<Rightarrow> state" where
  "step Mounted s = mounted s"
| "step PianoRender s = Piano s"
| "step (CanvasClick now x y) s = handleCanvasClick now x y s"
| "step (MouseDown x y) s = handleMouseDown x y s"
| "step (MouseMove x y) s = handleMouseMove x y s"
| "step MouseUp s = handleMouseUp s"
| "step ClearAllNotes s = clearAllNotes s"
| "step (AddRandomNote now r1 r2 r3) s = addRandomNote now r1 r2 r3 s"
| "step MidiNoFile s = handleMidiUpload (\<lambda>k. 0) (\<lambda>k. 0) (numberOfColumns s) None s"
| "step MidiFileChosen s = awaitFile s"
| "step (MidiFileRead now rnd k result) s = fileRead now rnd k result s"
| "step (AddPythagoreanChords toNote now) s = addPythagoreanChords toNote now s"

text \<open>The states the component can be in: any sequence of events from the first render.\<close>

inductive reachable :: "state \<Rightarrow> bool" where
  reachable_initial: "reachable initial_state"
| reachable_step: "reachable s \<Longrightarrow> reachable (step e s)"

text \<open>A run of events, in order.\<close>

definition run :: "event list \<Rightarrow> state \<Rightarrow> state" where
  "run es s = fold step es s"

text \<open>
  The events between the pointer-down and the pointer-up of a gesture: pointer moves, and
  the renders of \<open>Piano\<close> they cause.
\<close>

fun isPointerMove :: "event \<Rightarrow> bool" where
  "isPointerMove (MouseMove x y) = True"
| "isPointerMove PianoRender = True"
| "isPointerMove _ = False"

text \<open>The events that start an import or let one go on.\<close>

fun isImportEvent :: "event \<Rightarrow> bool" where
  "isImportEvent MidiFileChosen = True"
| "isImportEvent (MidiFileRead now rnd k result) = True"
| "isImportEvent _ = False"

section \<open>Invariants of the store\<close>

text \<open>Every stored note lasts one column or more.\<close>

definition durationsPositive :: "state \<Rightarrow> bool" where
  "durationsPositive s = list_all (\<lambda>n. 1 \<le> duration n) (notesArr s)"

text \<open>Every stored note is named by the entry of the array \<open>allNotes\<close> at its row.\<close>

definition pitchRowsAgree :: "state \<Rightarrow> bool" where
  "pitchRowsAgree s = list_all (\<lambda>n. note_name n = at_index (allNotes s) (rowIndex n)) (notesArr s)"

text \<open>
  Inputs within their range: a result of \<open>Math.random()\<close> is not negative, and a decoded
  note lasts longer than zero seconds.
\<close>

fun wellFormedInput :: "event \<Rightarrow> bool" where
  "wellFormedInput (AddRandomNote now r1 r2 r3) = (0 \<le> r3)"
| "wellFormedInput (MidiFileRead now rnd k (Inr midi)) =
     list_all (\<lambda>t. list_all (\<lambda>m. 0 < midi_duration m) (track_notes t)) (tracks midi)"
| "wellFormedInput _ = True"

text \<open>The names the chord generator gets from the audio library are names of the table.\<close>

fun namesInTable :: "event \<Rightarrow> string list \<Rightarrow> bool" where
  "namesInTable (AddPythagoreanChords toNote now) tbl =
     (list_all (\<lambda>interval. toNote (intervalFrequency (snd interval)) \<in> set tbl) pythagoreanRatios
      \<and> ''C4'' \<in> set tbl)"
| "namesInTable _ tbl = True"

section \<open>Example states\<close>

text \<open>
  The mounted component after one click at the pixel (30, 60): one selected note in
  column 1 of row 2.
\<close>

definition demo_state :: state where
  "demo_state = handleCanvasClick 1 30 60 (mounted initial_state)"

text \<open>A decoded file whose two notes lie below and above the seven octaves.\<close>

definition midi_out_of_range :: Midi where
  "midi_out_of_range =
     \<lparr> tracks = [\<lparr> track_notes = [\<lparr> midi_name = ''C9'', midi_time = 0, midi_duration = 1 \<rparr>,
                                   \<lparr> midi_name = ''B1'', midi_time = 2, midi_duration = 1 / 2 \<rparr>] \<rparr>] \<rparr>"

text \<open>A decoded file with one note whose note-off comes with its note-on.\<close>

definition midi_zero_length :: Midi where
  "midi_zero_length =
     \<lparr> tracks = [\<lparr> track_notes = [\<lparr> midi_name = ''C4'', midi_time = 0, midi_duration = 0 \<rparr>] \<rparr>] \<rparr>"

text \<open>Two notes on the same cell, row 0 and column 0, added by the random-note button.\<close>

definition overlap_state :: state where
  "overlap_state = run [Mounted, AddRandomNote 1 0 0 0, AddRandomNote 2 0 0 0] initial_state"

text \<open>
  Three notes: two on the cell of row 2 and column 1, one on the cell of row 0 and column
  5; the last one is the selected one.
\<close>

definition busy_state :: state where
  "busy_state =
     run [Mounted, CanvasClick 1 30 60, AddRandomNote 2 (1 / 32) (1 / 64) 0, CanvasClick 3 130 10]
       initial_state"

text \<open>A decoded file with one note of the table, half a second long.\<close>

definition midi_short :: Midi where
  "midi_short =
     \<lparr> tracks = [\<lparr> track_notes = [\<lparr> midi_name = ''C4'', midi_time = 0, midi_duration = 1 / 2 \<rparr>] \<rparr>] \<rparr>"

section \<open>The pitch table\<close>

lemma allNotes_initial_eq:
  "allNotes_initial =
     [
         ''C2'', ''C#2'', ''D2'', ''D#2'', ''E2'', ''F2'', ''F#2'', ''G2'', ''G#2'', ''A2'',
         ''A#2'', ''B2'', ''C3'', ''C#3'', ''D3'', ''D#3'', ''E3'', ''F3'', ''F#3'', ''G3'',
         ''G#3'', ''A3'', ''A#3'', ''B3'', ''C4'', ''C#4'', ''D4'', ''D#4'', ''E4'', ''F4'',
         ''F#4'', ''G4'', ''G#4'', ''A4'', ''A#4'', ''B4'', ''C5'', ''C#5'', ''D5'', ''D#5'',
         ''E5'', ''F5'', ''F#5'', ''G5'', ''G#5'', ''A5'', ''A#5'', ''B5'', ''C6'', ''C#6'',
         ''D6'', ''D#6'', ''E6'', ''F6'', ''F#6'', ''G6'', ''G#6'', ''A6'', ''A#6'', ''B6'',
         ''C7'', ''C#7'', ''D7'', ''D#7'', ''E7'', ''F7'', ''F#7'', ''G7'', ''G#7'', ''A7'',
         ''A#7'', ''B7'', ''C8'', ''C#8'', ''D8'', ''D#8'', ''E8'', ''F8'', ''F#8'', ''G8'',
         ''G#8'', ''A8'', ''A#8'', ''B8'']"
  by (simp add: allNotes_initial_def NOTES_def OCTAVES_def upt_rec string_of_nat.simps)

lemma length_allNotes_initial: "length allNotes_initial = 84"
  by (simp add: allNotes_initial_eq)

lemma distinct_allNotes_initial: "distinct allNotes_initial"
  by (simp add: allNotes_initial_eq)

section \<open>Rounding\<close>

lemma round_half_even_nonneg: "0 \<le> x \<Longrightarrow> 0 \<le> round_half_even x"
  by (simp add: round_half_even_def Let_def)

lemma fl64_nonneg:
  assumes "0 \<le> x"
  shows "0 \<le> fl64 x"
proof (cases "x = 0")
  case True
  then show ?thesis by (simp add: fl64_def)
next
  case False
  define e where "e = ilog2 \<bar>x\<bar> - 52"
  have p: "(0::real) < 2 powi e"
    by (simp add: zero_less_power_int)
  then have "0 \<le> x / 2 powi e"
    using assms by simp
  then have "0 \<le> round_half_even (x / 2 powi e)"
    by (rule round_half_even_nonneg)
  then have "0 \<le> real_of_int (round_half_even (x / 2 powi e)) * 2 powi e"
    using p by simp
  with False show ?thesis
    by (simp add: fl64_def Let_def e_def)
qed

section \<open>The example states\<close>

lemma demo_state_eq:
  "demo_state =
     \<lparr> synth = True, activeNotes = [Some ''D2''],
       notesArr = [\<lparr> note_id = NoteId 1, note_name = Some ''D2'', start = 1, duration = 1,
                     rowIndex = 2, colIndex = 1, selected = True \<rparr>],
       isDragging = False, isResizing = False,
       selectedNote = Some \<lparr> note_id = NoteId 1, note_name = Some ''D2'', start = 1, duration = 1,
                     rowIndex = 2, colIndex = 1, selected = True \<rparr>,
       numberOfColumns = 64, notesCanvasRef = True, allNotes = allNotes_initial,
       effects = [TriggerAttackRelease (Some ''D2'') ''8n''], pendingImports = [] \<rparr>"
  by (simp add: demo_state_def handleCanvasClick_def mounted_def initial_state_def Let_def
      CELL_SIZE_def playNote_def at_index_def MEASURES_def BEATS_PER_MEASURE_def
      allNotes_initial_eq)

lemma overlap_state_notes:
  "notesArr overlap_state =
     [\<lparr> note_id = NoteId 1, note_name = Some ''C2'', start = 0, duration = 1,
        rowIndex = 0, colIndex = 0, selected = False \<rparr>,
      \<lparr> note_id = NoteId 2, note_name = Some ''C2'', start = 0, duration = 1,
        rowIndex = 0, colIndex = 0, selected = False \<rparr>]"
  and overlap_state_flags:
  "notesCanvasRef overlap_state" "\<not> isDragging overlap_state" "\<not> isResizing overlap_state"
  by (simp_all add: overlap_state_def run_def addRandomNote_def mounted_def initial_state_def
      Let_def fl64_def at_index_def allNotes_initial_eq)

lemma busy_state_notes:
  "notesArr busy_state =
     [\<lparr> note_id = NoteId 1, note_name = Some ''D2'', start = 1, duration = 1,
        rowIndex = 2, colIndex = 1, selected = False \<rparr>,
      \<lparr> note_id = NoteId 2, note_name = Some ''D2'', start = 1, duration = 1,
        rowIndex = 2, colIndex = 1, selected = False \<rparr>,
      \<lparr> note_id = NoteId 3, note_name = Some ''C2'', start = 5, duration = 1,
        rowIndex = 0, colIndex = 5, selected = True \<rparr>]"
  and busy_state_flags:
  "notesCanvasRef busy_state" "\<not> isDragging busy_state" "\<not> isResizing busy_state"
  "allNotes busy_state = allNotes_initial" "numberOfColumns busy_state = 64"
  by (simp_all add: busy_state_def run_def addRandomNote_def handleCanvasClick_def mounted_def
      initial_state_def Let_def fl64_def ilog2.simps round_half_even_def at_index_def
      allNotes_initial_eq CELL_SIZE_def playNote_def covers_def MEASURES_def BEATS_PER_MEASURE_def)

text \<open>
  The row of a random note is the floor of the rounded product: for this result of
  \<open>Math.random()\<close> the product with 84 lies below 16 and rounds to 16.
\<close>

lemma addRandomNote_rounds_row:
  "rowIndex (last (notesArr (addRandomNote 5 (857828500451523 / 2 ^ 52) 0 0 demo_state))) = 16 \<and>
   \<lfloor>(857828500451523 / 2 ^ 52 * 84 :: real)\<rfloor> = 15"
  by (simp add: addRandomNote_def demo_state_eq Let_def length_allNotes_initial fl64_def
      ilog2.simps round_half_even_def)

section \<open>Clicks on the canvas\<close>

text \<open>
  Claim C1, as the code has it. A click at the pixel \<open>(x, y)\<close> targets the cell
  \<open>(\<lfloor>x / CELL_SIZE\<rfloor>, \<lfloor>y / CELL_SIZE\<rfloor>)\<close>. If a note covers the cell, the click creates no
  note and takes the first covering note in the order of the store: every note gets the
  selected flag exactly when it carries the identifier of that note, so that note is
  selected and every note with another identifier is not; the column count stays. If no
  note covers the cell and neither a drag nor a resize is in progress, the click appends
  a note of duration 1 at the cell, selected, and clears the flag of all the others.
\<close>

theorem handleCanvasClick_selects_first_or_creates:
  assumes "notesCanvasRef s"
  shows "let col = \<lfloor>x / CELL_SIZE\<rfloor>; row = \<lfloor>y / CELL_SIZE\<rfloor>;
             s' = handleCanvasClick now x y s
         in ((\<exists>n\<in>set (notesArr s). covers row col n) \<longrightarrow>
               (\<exists>i<length (notesArr s).
                  covers row col (notesArr s ! i) \<and>
                  (\<forall>j<i. \<not> covers row col (notesArr s ! j)) \<and>
                  selectedNote s' = Some (notesArr s ! i) \<and>
                  notesArr s' =
                    map (\<lambda>n. n\<lparr>selected := (note_id n = note_id (notesArr s ! i))\<rparr>) (notesArr s) \<and>
                  selected (notesArr s' ! i) \<and>
                  (\<forall>k<length (notesArr s).
                     note_id (notesArr s ! k) \<noteq> note_id (notesArr s ! i) \<longrightarrow>
                     \<not> selected (notesArr s' ! k)) \<and>
                  numberOfColumns s' = numberOfColumns s)) \<and>
            ((\<forall>n\<in>set (notesArr s). \<not> covers row col n) \<and> \<not> isDragging s \<and> \<not> isResizing s \<longrightarrow>
               (let newNote = \<lparr> note_id = NoteId now, note_name = at_index (allNotes s) row,
                                start = col, duration = 1, rowIndex = row, colIndex = col,
                                selected = True \<rparr>
                in notesArr s' = map (\<lambda>n. n\<lparr>selected := False\<rparr>) (notesArr s) @ [newNote] \<and>
                   selectedNote s' = Some newNote))"
proof -
  define col where "col = \<lfloor>x / CELL_SIZE\<rfloor>"
  define row where "row = \<lfloor>y / CELL_SIZE\<rfloor>"
  define s' where "s' = handleCanvasClick now x y s"
  have hit: "\<exists>i<length (notesArr s).
        covers row col (notesArr s ! i) \<and>
        (\<forall>j<i. \<not> covers row col (notesArr s ! j)) \<and>
        selectedNote s' = Some (notesArr s ! i) \<and>
        notesArr s' =
          map (\<lambda>n. n\<lparr>selected := (note_id n = note_id (notesArr s ! i))\<rparr>) (notesArr s) \<and>
        selected (notesArr s' ! i) \<and>
        (\<forall>k<length (notesArr s).
           note_id (notesArr s ! k) \<noteq> note_id (notesArr s ! i) \<longrightarrow>
           \<not> selected (notesArr s' ! k)) \<and>
        numberOfColumns s' = numberOfColumns s"
    if ex: "\<exists>n\<in>set (notesArr s). covers row col n"
  proof -
    from ex obtain c where c: "find (covers row col) (notesArr s) = Some c"
      by (cases "find (covers row col) (notesArr s)") (auto simp: find_None_iff)
    then obtain i where i: "i < length (notesArr s)" and cov: "covers row col (notesArr s ! i)"
      and ci: "c = notesArr s ! i" and first: "\<forall>j<i. \<not> covers row col (notesArr s ! j)"
      by (auto simp: find_Some_iff)
    have sel: "selectedNote s' = Some (notesArr s ! i)"
      and upd: "notesArr s' =
          map (\<lambda>n. n\<lparr>selected := (note_id n = note_id (notesArr s ! i))\<rparr>) (notesArr s)"
      and cols: "numberOfColumns s' = numberOfColumns s"
      using assms c ci by (simp_all add: s'_def handleCanvasClick_def Let_def col_def row_def)
    have own: "selected (notesArr s' ! i)"
      using i by (simp add: upd)
    have others: "\<forall>k<length (notesArr s).
           note_id (notesArr s ! k) \<noteq> note_id (notesArr s ! i) \<longrightarrow>
           \<not> selected (notesArr s' ! k)"
      by (simp add: upd)
    from i cov first sel upd own others cols show ?thesis
      by blast
  qed
  have miss: "notesArr s' = map (\<lambda>n. n\<lparr>selected := False\<rparr>) (notesArr s) @
          [\<lparr> note_id = NoteId now, note_name = at_index (allNotes s) row,
             start = col, duration = 1, rowIndex = row, colIndex = col, selected = True \<rparr>] \<and>
        selectedNote s' =
          Some \<lparr> note_id = NoteId now, note_name = at_index (allNotes s) row,
                 start = col, duration = 1, rowIndex = row, colIndex = col, selected = True \<rparr>"
    if no: "\<forall>n\<in>set (notesArr s). \<not> covers row col n" and idle: "\<not> isDragging s" "\<not> isResizing s"
  proof -
    from no have "find (covers row col) (notesArr s) = None"
      by (simp add: find_None_iff)
    then show ?thesis
      using assms idle
      by (simp add: s'_def handleCanvasClick_def Let_def col_def row_def playNote_def)
  qed
  from hit miss show ?thesis
    unfolding Let_def col_def row_def s'_def by blast
qed

theorem handleCanvasClick_selects_first_or_creates_witness:
  "notesCanvasRef busy_state \<and>
   (\<exists>n\<in>set (notesArr busy_state). covers \<lfloor>70 / CELL_SIZE\<rfloor> \<lfloor>40 / CELL_SIZE\<rfloor> n) \<and>
   map selected (notesArr busy_state) = [False, False, True] \<and>
   map selected (notesArr (handleCanvasClick 4 40 70 busy_state)) = [True, False, False] \<and>
   length (notesArr (handleCanvasClick 4 40 70 busy_state)) = 3 \<and>
   \<not> (\<exists>n\<in>set (notesArr busy_state). covers \<lfloor>10 / CELL_SIZE\<rfloor> \<lfloor>200 / CELL_SIZE\<rfloor> n) \<and>
   \<not> isDragging busy_state \<and> \<not> isResizing busy_state \<and>
   map selected (notesArr (handleCanvasClick 4 200 10 busy_state)) = [False, False, False, True] \<and>
   last (notesArr (handleCanvasClick 4 200 10 busy_state)) =
     \<lparr> note_id = NoteId 4, note_name = Some ''C2'', start = 8, duration = 1,
       rowIndex = 0, colIndex = 8, selected = True \<rparr>"
  using handleCanvasClick_selects_first_or_creates [OF busy_state_flags(1), of 40 70 4]
    handleCanvasClick_selects_first_or_creates [OF busy_state_flags(1), of 200 10 4]
  by (simp add: handleCanvasClick_def busy_state_notes busy_state_flags CELL_SIZE_def covers_def
      Let_def playNote_def at_index_def allNotes_initial_eq)

text \<open>
  The claim C1 as stated, with every note whose span holds the cell selected by the click,
  fails where two notes lie on the cell: the click selects the first, and the second,
  whose span holds the cell too, stays unselected.
\<close>

theorem handleCanvasClick_overlap_counterexample:
  "covers \<lfloor>10 / CELL_SIZE\<rfloor> \<lfloor>10 / CELL_SIZE\<rfloor> (notesArr overlap_state ! 1) \<and>
   length (notesArr (handleCanvasClick 3 10 10 overlap_state)) = 2 \<and>
   selected (notesArr (handleCanvasClick 3 10 10 overlap_state) ! 0) \<and>
   \<not> selected (notesArr (handleCanvasClick 3 10 10 overlap_state) ! 1)"
  by (simp add: handleCanvasClick_def overlap_state_notes overlap_state_flags CELL_SIZE_def
      covers_def Let_def)

text \<open>
  Claim C5. A click that places a note at a column of at least the column count minus
  one raises the column count by exactly 50; a click that places a note at a smaller
  column leaves the column count as it was.
\<close>

theorem handleCanvasClick_grows_columns:
  assumes "notesCanvasRef s"
    and "\<forall>n\<in>set (notesArr s). \<not> covers \<lfloor>y / CELL_SIZE\<rfloor> \<lfloor>x / CELL_SIZE\<rfloor> n"
    and "\<not> isDragging s" and "\<not> isResizing s"
  shows "let s' = handleCanvasClick now x y s in
           length (notesArr s') = length (notesArr s) + 1 \<and>
           colIndex (last (notesArr s')) = \<lfloor>x / CELL_SIZE\<rfloor> \<and>
           numberOfColumns s' =
             (if \<lfloor>x / CELL_SIZE\<rfloor> \<ge> numberOfColumns s - 1
              then numberOfColumns s + 50 else numberOfColumns s)"
proof -
  have "find (covers \<lfloor>y / CELL_SIZE\<rfloor> \<lfloor>x / CELL_SIZE\<rfloor>) (notesArr s) = None"
    using assms(2) by (simp add: find_None_iff)
  then show ?thesis
    using assms(1,3,4) by (simp add: handleCanvasClick_def Let_def playNote_def)
qed

theorem handleCanvasClick_grows_columns_witness:
  "notesCanvasRef demo_state \<and> \<not> isDragging demo_state \<and> \<not> isResizing demo_state \<and>
   find (covers \<lfloor>10 / CELL_SIZE\<rfloor> \<lfloor>1580 / CELL_SIZE\<rfloor>) (notesArr demo_state) = None \<and>
   numberOfColumns demo_state = 64 \<and>
   numberOfColumns (handleCanvasClick 2 1580 10 demo_state) = 114 \<and>
   find (covers \<lfloor>10 / CELL_SIZE\<rfloor> \<lfloor>1570 / CELL_SIZE\<rfloor>) (notesArr demo_state) = None \<and>
   numberOfColumns (handleCanvasClick 2 1570 10 demo_state) = 64"
  using handleCanvasClick_grows_columns [of demo_state 10 1580 2]
    handleCanvasClick_grows_columns [of demo_state 10 1570 2]
  by (simp add: demo_state_eq CELL_SIZE_def covers_def Let_def)

section \<open>The column count and the reachable states\<close>

lemma indexOf_ge: "- 1 \<le> indexOf xs x"
  by (induction xs) (auto simp: Let_def)

lemma indexOf_minus1_iff: "indexOf xs x = - 1 \<longleftrightarrow> x \<notin> set xs"
proof (induction xs)
  case Nil
  show ?case by simp
next
  case (Cons y ys)
  have "- 1 \<le> indexOf ys x" by (rule indexOf_ge)
  with Cons show ?case by (auto simp: Let_def)
qed

lemma handleCanvasClick_columns: "numberOfColumns s \<le> numberOfColumns (handleCanvasClick now x y s)"
  by (simp add: handleCanvasClick_def Let_def playNote_def split: option.split)

lemma handleMouseDown_columns: "numberOfColumns (handleMouseDown x y s) = numberOfColumns s"
  by (simp add: handleMouseDown_def Let_def split: option.split)

lemma handleMouseMove_columns: "numberOfColumns (handleMouseMove x y s) = numberOfColumns s"
  by (simp add: handleMouseMove_def Let_def split: option.split)

lemma handleMidiUpload_columns:
  "numberOfColumns (handleMidiUpload now rnd closureColumns None s) = numberOfColumns s"
  "numberOfColumns (handleMidiUpload now rnd closureColumns (Some (Inl err)) s) = numberOfColumns s"
  "closureColumns \<le> numberOfColumns (handleMidiUpload now rnd closureColumns (Some (Inr midi)) s)"
  by (simp_all add: handleMidiUpload_def split: prod.split)

lemma handleMidiUpload_pending:
  "pendingImports (handleMidiUpload now rnd closureColumns f s) = pendingImports s"
  by (simp add: handleMidiUpload_def split: option.split sum.split prod.split)

lemma step_columns:
  assumes "\<And>now rnd k result. e \<noteq> MidiFileRead now rnd k result"
  shows "numberOfColumns s \<le> numberOfColumns (step e s)"
proof (cases e)
  case (CanvasClick now x y)
  then show ?thesis by (simp add: handleCanvasClick_columns)
next
  case (MouseDown x y)
  then show ?thesis by (simp add: handleMouseDown_columns)
next
  case (MouseMove x y)
  then show ?thesis by (simp add: handleMouseMove_columns)
next
  case (MidiFileRead now rnd k result)
  with assms [of now rnd k result] show ?thesis by blast
qed (simp_all add: mounted_def Piano_def handleMouseUp_def clearAllNotes_def awaitFile_def
       addRandomNote_def addPythagoreanChords_def handleMidiUpload_columns Let_def)

lemma step_pending:
  assumes "\<not> isImportEvent e"
  shows "pendingImports (step e s) = pendingImports s"
  using assms
  by (cases e)
    (simp_all add: mounted_def Piano_def handleMouseUp_def clearAllNotes_def
      addRandomNote_def addPythagoreanChords_def handleMidiUpload_pending Let_def
      handleCanvasClick_def playNote_def handleMouseDown_def handleMouseMove_def
      split: option.split)

lemma run_pending:
  "list_all (\<lambda>e. \<not> isImportEvent e) es \<Longrightarrow> pendingImports (run es s) = pendingImports s"
proof (induction es arbitrary: s)
  case Nil
  show ?case by (simp add: run_def)
next
  case (Cons e es)
  then have "pendingImports (run es (step e s)) = pendingImports (step e s)"
    by simp
  with Cons.prems show ?case
    by (simp add: run_def step_pending)
qed

lemma reachable_columns_pending:
  "reachable s \<Longrightarrow> 64 \<le> numberOfColumns s \<and> list_all (\<lambda>n. 64 \<le> n) (pendingImports s)"
proof (induction rule: reachable.induct)
  case reachable_initial
  show ?case by (simp add: initial_state_def MEASURES_def BEATS_PER_MEASURE_def)
next
  case (reachable_step s e)
  then have c: "64 \<le> numberOfColumns s" and p: "list_all (\<lambda>n. 64 \<le> n) (pendingImports s)"
    by simp_all
  show ?case
  proof (cases "isImportEvent e")
    case False
    then have "\<And>now rnd k result. e \<noteq> MidiFileRead now rnd k result"
      by auto
    from step_columns [OF this, of s] c p False show ?thesis
      by (simp add: step_pending)
  next
    case True
    show ?thesis
    proof (cases e)
      case MidiFileChosen
      with c p show ?thesis by (simp add: awaitFile_def)
    next
      case (MidiFileRead now rnd k result)
      show ?thesis
      proof (cases "k < length (pendingImports s)")
        case False
        with c p MidiFileRead show ?thesis by (simp add: fileRead_def)
      next
        case k: True
        let ?s = "s\<lparr>pendingImports := take k (pendingImports s) @ drop (Suc k) (pendingImports s)\<rparr>"
        from p k have pk: "64 \<le> pendingImports s ! k"
          by (simp add: list_all_length)
        from p have rest: "list_all (\<lambda>n. 64 \<le> n) (take k (pendingImports s) @ drop (Suc k) (pendingImports s))"
          by (auto simp: list_all_iff dest: in_set_takeD in_set_dropD)
        have "64 \<le> numberOfColumns (handleMidiUpload now rnd (pendingImports s ! k) (Some result) ?s)"
        proof (cases result)
          case (Inl err)
          with c show ?thesis by (simp add: handleMidiUpload_columns)
        next
          case (Inr midi)
          with pk handleMidiUpload_columns(3) [of "pendingImports s ! k" now rnd midi ?s]
          show ?thesis by simp
        qed
        with rest k MidiFileRead show ?thesis
          by (simp add: fileRead_def handleMidiUpload_pending)
      qed
    qed (use True in simp_all)
  qed
qed

lemma reachable_columns: "reachable s \<Longrightarrow> 64 \<le> numberOfColumns s"
  by (simp add: reachable_columns_pending)

text \<open>
  Claim C10, at an import whose file read spans a click: the call of
  \<open>handleMidiUpload\<close> holds the column count 64 of its closure, the click in column 63
  raises the count to 114, and the import, going on after the read, writes the maximum of
  64 and 3: the count falls from 114 to 64.
\<close>

theorem import_after_click_lowers_columns:
  "numberOfColumns (run [Mounted, MidiFileChosen] initial_state) = 64 \<and>
   numberOfColumns (run [Mounted, MidiFileChosen, CanvasClick 1 1580 10] initial_state) = 114 \<and>
   numberOfColumns
     (run [Mounted, MidiFileChosen, CanvasClick 1 1580 10, PianoRender,
           MidiFileRead (\<lambda>k. 7) (\<lambda>k. 0) 0 (Inr midi_short)] initial_state) = 64"
  by (simp add: run_def mounted_def awaitFile_def fileRead_def handleCanvasClick_def Piano_def
      handleMidiUpload_def collectMidiNotes_def pushMidiNote_def midi_short_def
      initial_state_def Let_def CELL_SIZE_def playNote_def at_index_def covers_def
      allNotes_initial_eq MEASURES_def BEATS_PER_MEASURE_def)

lemma handleCanvasClick_allNotes: "allNotes (handleCanvasClick now x y s) = allNotes s"
  by (simp add: handleCanvasClick_def Let_def playNote_def split: option.split)

lemma handleMouseDown_allNotes: "allNotes (handleMouseDown x y s) = allNotes s"
  by (simp add: handleMouseDown_def Let_def split: option.split)

lemma handleMouseMove_allNotes: "allNotes (handleMouseMove x y s) = allNotes s"
  by (simp add: handleMouseMove_def Let_def split: option.split)

lemma handleMidiUpload_allNotes: "allNotes (handleMidiUpload now rnd closureColumns f s) = allNotes s"
  by (simp add: handleMidiUpload_def split: option.split sum.split prod.split)

lemma step_allNotes: "allNotes (step e s) = allNotes s \<or> allNotes (step e s) = rev (allNotes s)"
  by (cases e)
    (simp_all add: handleCanvasClick_allNotes handleMouseDown_allNotes handleMouseMove_allNotes
      handleMidiUpload_allNotes mounted_def Piano_def handleMouseUp_def clearAllNotes_def
      addRandomNote_def addPythagoreanChords_def awaitFile_def fileRead_def Let_def)

lemma reachable_allNotes:
  "reachable s \<Longrightarrow> allNotes s = allNotes_initial \<or> allNotes s = rev allNotes_initial"
proof (induction rule: reachable.induct)
  case reachable_initial
  show ?case by (simp add: initial_state_def)
next
  case (reachable_step s e)
  with step_allNotes [of e s] show ?case by auto
qed

lemma reachable_run: "reachable s \<Longrightarrow> reachable (run es s)"
proof (induction es arbitrary: s)
  case Nil
  then show ?case by (simp add: run_def)
next
  case (Cons e es)
  from Cons.prems have "reachable (step e s)" by (rule reachable_step)
  then have "reachable (run es (step e s))" by (rule Cons.IH)
  then show ?case by (simp add: run_def)
qed

lemma reachable_demo_state: "reachable demo_state"
proof -
  have "reachable (step (CanvasClick 1 30 60) (step Mounted initial_state))"
    by (intro reachable_step reachable_initial)
  then show ?thesis
    by (simp add: demo_state_def)
qed

section \<open>Properties of the MIDI import\<close>

text \<open>
  Claim C7. When reading or decoding the file throws, the handler logs the error and
  shows the failure notification, and changes nothing else: the notes and the column
  count are those of the state the call goes on in.
\<close>

theorem handleMidiUpload_failure:
  "let s' = handleMidiUpload now rnd closureColumns (Some (Inl e)) s
   in notesArr s' = notesArr s \<and> numberOfColumns s' = numberOfColumns s \<and>
      s' = s\<lparr>effects := effects s @
               [ConsoleError ''Error parsing MIDI file:'' e,
                Toast ''Error uploading MIDI file''
                  ''There was a problem processing the MIDI file. Please try again with a different file.''
                  True]\<rparr>"
  by (simp add: handleMidiUpload_def)

lemma fold_pushMidiNote_no_match:
  assumes "\<forall>m\<in>set ms. midi_name m \<notin> set tbl"
  shows "fold (pushMidiNote now rnd tbl) ms acc = acc"
  using assms
  by (induction ms arbitrary: acc)
    (auto simp: pushMidiNote_def Let_def indexOf_minus1_iff split: prod.split)

lemma collectMidiNotes_no_match:
  assumes "\<forall>t\<in>set (tracks midi). \<forall>m\<in>set (track_notes t). midi_name m \<notin> set tbl"
  shows "collectMidiNotes now rnd tbl midi = ([], 0)"
proof -
  have "fold (\<lambda>track acc. fold (pushMidiNote now rnd tbl) (track_notes track) acc) ts acc = acc"
    if "\<forall>t\<in>set ts. \<forall>m\<in>set (track_notes t). midi_name m \<notin> set tbl" for ts acc
    using that by (induction ts arbitrary: acc) (simp_all add: fold_pushMidiNote_no_match)
  with assms show ?thesis
    by (simp add: collectMidiNotes_def)
qed

text \<open>
  Claim C6. The import starts in a reachable state \<open>s0\<close>, when the file is chosen, and
  goes on after any events \<open>es\<close> that ran during the read. When the decoder returns a file
  none of whose notes has a name of the seven-octave table, the import leaves the store
  empty, whatever it held, and the column count at the value it had in \<open>s0\<close>, before the
  import. Where no other import started or went on meanwhile, the import is the suspended
  call number \<open>length (pendingImports s0)\<close>, and the end of its file read gives that state.
\<close>

theorem handleMidiUpload_no_match:
  assumes "reachable s0"
    and "\<forall>t\<in>set (tracks midi). \<forall>m\<in>set (track_notes t). midi_name m \<notin> set allNotes_initial"
  shows "let s' = handleMidiUpload now rnd (numberOfColumns s0) (Some (Inr midi))
                    (run es (awaitFile s0))
         in notesArr s' = [] \<and> numberOfColumns s' = numberOfColumns s0 \<and>
            (list_all (\<lambda>e. \<not> isImportEvent e) es \<longrightarrow>
               notesArr (fileRead now rnd (length (pendingImports s0)) (Inr midi)
                           (run es (awaitFile s0))) = [] \<and>
               numberOfColumns (fileRead now rnd (length (pendingImports s0)) (Inr midi)
                           (run es (awaitFile s0))) = numberOfColumns s0)"
proof -
  define s where "s = run es (awaitFile s0)"
  have "reachable (step MidiFileChosen s0)"
    using assms(1) by (rule reachable_step)
  then have r: "reachable s"
    unfolding s_def by (simp add: reachable_run)
  then have "set (allNotes s) = set allNotes_initial"
    using reachable_allNotes [of s] by auto
  with assms(2) have none: "collectMidiNotes now rnd (allNotes s) midi = ([], 0)"
    by (intro collectMidiNotes_no_match) simp
  have c0: "64 \<le> numberOfColumns s0"
    using assms(1) by (rule reachable_columns)
  have a: "\<And>n t. 64 \<le> n \<Longrightarrow> allNotes t = allNotes s \<Longrightarrow>
      notesArr (handleMidiUpload now rnd n (Some (Inr midi)) t) = [] \<and>
      numberOfColumns (handleMidiUpload now rnd n (Some (Inr midi)) t) = n"
    using none by (simp add: handleMidiUpload_def)
  have b: "notesArr (fileRead now rnd (length (pendingImports s0)) (Inr midi) s) = [] \<and>
      numberOfColumns (fileRead now rnd (length (pendingImports s0)) (Inr midi) s)
        = numberOfColumns s0"
    if "list_all (\<lambda>e. \<not> isImportEvent e) es"
  proof -
    from that have "pendingImports s = pendingImports s0 @ [numberOfColumns s0]"
      by (simp add: s_def run_pending awaitFile_def)
    then show ?thesis
      using a [OF c0, of "s\<lparr>pendingImports := pendingImports s0\<rparr>"]
      by (simp add: fileRead_def)
  qed
  from a [OF c0, of s] b show ?thesis
    unfolding Let_def s_def by blast
qed

theorem handleMidiUpload_no_match_witness:
  "reachable demo_state \<and> length (notesArr demo_state) = 1 \<and>
   map midi_name (concat (map track_notes (tracks midi_out_of_range))) = [''C9'', ''B1''] \<and>
   ''C9'' \<notin> set allNotes_initial \<and> ''B1'' \<notin> set allNotes_initial \<and>
   list_all (\<lambda>e. \<not> isImportEvent e) [CanvasClick 2 1580 10, PianoRender] \<and>
   numberOfColumns demo_state = 64 \<and>
   numberOfColumns (run [CanvasClick 2 1580 10, PianoRender] (awaitFile demo_state)) = 114 \<and>
   notesArr (fileRead (\<lambda>k. 7) (\<lambda>k. 0) 0 (Inr midi_out_of_range)
      (run [CanvasClick 2 1580 10, PianoRender] (awaitFile demo_state))) = [] \<and>
   numberOfColumns (fileRead (\<lambda>k. 7) (\<lambda>k. 0) 0 (Inr midi_out_of_range)
      (run [CanvasClick 2 1580 10, PianoRender] (awaitFile demo_state))) = 64"
proof -
  have names: "''C9'' \<notin> set allNotes_initial" "''B1'' \<notin> set allNotes_initial"
    by (simp_all add: allNotes_initial_eq)
  then have nm: "\<forall>t\<in>set (tracks midi_out_of_range). \<forall>m\<in>set (track_notes t).
      midi_name m \<notin> set allNotes_initial"
    by (simp add: midi_out_of_range_def)
  have mid: "numberOfColumns (run [CanvasClick 2 1580 10, PianoRender] (awaitFile demo_state)) = 114"
    by (simp add: run_def awaitFile_def handleCanvasClick_def Piano_def demo_state_eq Let_def
        CELL_SIZE_def covers_def playNote_def)
  from handleMidiUpload_no_match [OF reachable_demo_state nm,
      of "\<lambda>k. 7" "\<lambda>k. 0" "[CanvasClick 2 1580 10, PianoRender]"]
  show ?thesis
    using names reachable_demo_state mid
    by (simp add: Let_def midi_out_of_range_def demo_state_eq)
qed

text \<open>
  Claim C3, at a decoded note of duration 0: the import stores a note of duration 0.
  The other paths keep the duration at 1 or more; the import has no such bound.
\<close>

theorem handleMidiUpload_zero_duration:
  "notesArr (handleMidiUpload (\<lambda>k. 7) (\<lambda>k. 0) closureColumns (Some (Inr midi_zero_length)) demo_state) =
     [\<lparr> note_id = MidiNoteId 7 0, note_name = Some ''C4'', start = 0, duration = 0,
        rowIndex = 24, colIndex = 0, selected = False \<rparr>]"
  by (simp add: handleMidiUpload_def collectMidiNotes_def pushMidiNote_def midi_zero_length_def
      demo_state_eq allNotes_initial_eq Let_def)

text \<open>
  Every other path keeps the durations at 1 or more, and so does the import of notes that
  last longer than zero seconds.
\<close>

lemma fold_pushMidiNote_durations:
  assumes "list_all (\<lambda>m. 0 < midi_duration m) ms"
    and "list_all (\<lambda>n. 1 \<le> duration n) (fst acc)"
  shows "list_all (\<lambda>n. 1 \<le> duration n) (fst (fold (pushMidiNote now rnd tbl) ms acc))"
  using assms
proof (induction ms arbitrary: acc)
  case Nil
  then show ?case by simp
next
  case (Cons m ms)
  from Cons.prems(1) have "0 < midi_duration m * 4" by simp
  then have "1 \<le> \<lceil>midi_duration m * 4\<rceil>"
    by (simp add: le_ceiling_iff)
  with Cons.prems(2) have "list_all (\<lambda>n. 1 \<le> duration n) (fst (pushMidiNote now rnd tbl m acc))"
    by (cases acc) (simp add: pushMidiNote_def Let_def)
  with Cons.IH Cons.prems(1) show ?case by simp
qed

lemma collectMidiNotes_durations:
  assumes "list_all (\<lambda>t. list_all (\<lambda>m. 0 < midi_duration m) (track_notes t)) (tracks midi)"
  shows "list_all (\<lambda>n. 1 \<le> duration n) (fst (collectMidiNotes now rnd tbl midi))"
proof -
  have "list_all (\<lambda>n. 1 \<le> duration n)
          (fst (fold (\<lambda>track acc. fold (pushMidiNote now rnd tbl) (track_notes track) acc) ts acc))"
    if "list_all (\<lambda>t. list_all (\<lambda>m. 0 < midi_duration m) (track_notes t)) ts"
      and "list_all (\<lambda>n. 1 \<le> duration n) (fst acc)" for ts :: "Track list" and acc
    using that by (induction ts arbitrary: acc) (simp_all add: fold_pushMidiNote_durations)
  with assms show ?thesis
    by (simp add: collectMidiNotes_def)
qed

lemma handleMidiUpload_durations:
  assumes "list_all (\<lambda>n. 1 \<le> duration n) (notesArr s)"
    and "case result of Inl err \<Rightarrow> True
         | Inr midi \<Rightarrow> list_all (\<lambda>t. list_all (\<lambda>m. 0 < midi_duration m) (track_notes t)) (tracks midi)"
  shows "list_all (\<lambda>n. 1 \<le> duration n)
           (notesArr (handleMidiUpload now rnd closureColumns (Some result) s))"
proof (cases result)
  case (Inl err)
  with assms(1) show ?thesis by (simp add: handleMidiUpload_def)
next
  case (Inr midi)
  with assms(2)
  have "list_all (\<lambda>n. 1 \<le> duration n) (fst (collectMidiNotes now rnd (allNotes s) midi))"
    by (intro collectMidiNotes_durations) simp
  with Inr show ?thesis
    by (auto simp: handleMidiUpload_def split: prod.split)
qed

lemma step_keeps_durations:
  assumes "durationsPositive s" and "wellFormedInput e"
  shows "durationsPositive (step e s)"
proof (cases e)
  case (CanvasClick now x y)
  with assms(1) show ?thesis
    by (simp add: durationsPositive_def handleCanvasClick_def Let_def playNote_def list_all_iff
        split: option.split)
next
  case (MouseDown x y)
  with assms(1) show ?thesis
    by (simp add: durationsPositive_def handleMouseDown_def Let_def split: option.split)
next
  case (MouseMove x y)
  with assms(1) show ?thesis
    by (auto simp: durationsPositive_def handleMouseMove_def Let_def list_all_iff
        split: option.split)
next
  case (AddRandomNote now r1 r2 r3)
  with assms(2) have "0 \<le> fl64 (r3 * 4)" by (simp add: fl64_nonneg)
  then have "0 \<le> \<lfloor>fl64 (r3 * 4)\<rfloor>" by simp
  with assms(1) AddRandomNote show ?thesis
    by (simp add: durationsPositive_def addRandomNote_def Let_def)
next
  case (MidiFileRead now rnd k result)
  show ?thesis
  proof (cases "k < length (pendingImports s)")
    case False
    with assms(1) MidiFileRead show ?thesis by (simp add: fileRead_def)
  next
    case True
    let ?s = "s\<lparr>pendingImports := take k (pendingImports s) @ drop (Suc k) (pendingImports s)\<rparr>"
    have "list_all (\<lambda>n. 1 \<le> duration n)
            (notesArr (handleMidiUpload now rnd (pendingImports s ! k) (Some result) ?s))"
    proof (rule handleMidiUpload_durations)
      show "list_all (\<lambda>n. 1 \<le> duration n) (notesArr ?s)"
        using assms(1) by (simp add: durationsPositive_def)
      show "case result of Inl err \<Rightarrow> True
         | Inr midi \<Rightarrow> list_all (\<lambda>t. list_all (\<lambda>m. 0 < midi_duration m) (track_notes t)) (tracks midi)"
        using assms(2) MidiFileRead by (cases result) simp_all
    qed
    with True MidiFileRead show ?thesis
      by (simp add: fileRead_def durationsPositive_def)
  qed
next
  case (AddPythagoreanChords toNote now)
  with assms(1) show ?thesis
    by (simp add: durationsPositive_def addPythagoreanChords_def Let_def list_all_iff
        pythagoreanRatios_def enumerate_eq_zip upt_rec)
qed (use assms(1) in \<open>simp_all add: durationsPositive_def mounted_def Piano_def
       handleMouseUp_def clearAllNotes_def awaitFile_def handleMidiUpload_def\<close>)

section \<open>Pitch names and rows\<close>

text \<open>
  Claim C4, at two clicks on row 0 with one render of \<open>Piano\<close> between them: the first
  note is named by the entry 0 of the table as created, the second by the entry 0 of the
  reversed table, so its name is not the one the created table has for its row.
\<close>

theorem click_after_render_other_pitch:
  "map (\<lambda>n. (rowIndex n, colIndex n, note_name n))
     (notesArr (run [Mounted, CanvasClick 1 5 10, PianoRender, CanvasClick 2 30 10] initial_state))
     = [(0, 0, Some ''C2''), (0, 1, Some ''B8'')] \<and>
   at_index allNotes_initial 0 = Some ''C2''"
  by (simp add: run_def handleCanvasClick_def Piano_def mounted_def initial_state_def Let_def
      CELL_SIZE_def playNote_def at_index_def covers_def allNotes_initial_eq
      MEASURES_def BEATS_PER_MEASURE_def)

text \<open>
  With the array left as it is, every handler keeps the names and the rows in agreement;
  a render of \<open>Piano\<close> breaks the agreement for the notes already stored.
\<close>

lemma indexOf_at_index: "x \<in> set xs \<Longrightarrow> at_index xs (indexOf xs x) = Some x"
proof (induction xs)
  case Nil
  then show ?case by simp
next
  case (Cons y ys)
  show ?case
  proof (cases "y = x")
    case True
    then show ?thesis by (simp add: at_index_def)
  next
    case False
    with Cons.prems have xin: "x \<in> set ys" by simp
    then have ih: "at_index ys (indexOf ys x) = Some x" by (rule Cons.IH)
    from xin have ne: "indexOf ys x \<noteq> - 1" by (simp add: indexOf_minus1_iff)
    have ge: "0 \<le> indexOf ys x"
      using indexOf_ge [of ys x] ne by linarith
    from ih ge have "indexOf ys x < int (length ys)" "ys ! nat (indexOf ys x) = x"
      by (auto simp: at_index_def split: if_splits)
    with False ne ge show ?thesis
      by (simp add: at_index_def Let_def nat_add_distrib)
  qed
qed

lemma fold_pushMidiNote_pitch:
  assumes "list_all (\<lambda>n. note_name n = at_index tbl (rowIndex n)) (fst acc)"
  shows "list_all (\<lambda>n. note_name n = at_index tbl (rowIndex n))
           (fst (fold (pushMidiNote now rnd tbl) ms acc))"
  using assms
proof (induction ms arbitrary: acc)
  case Nil
  then show ?case by simp
next
  case (Cons m ms)
  have "list_all (\<lambda>n. note_name n = at_index tbl (rowIndex n)) (fst (pushMidiNote now rnd tbl m acc))"
    using Cons.prems
    by (cases acc) (simp add: pushMidiNote_def Let_def indexOf_minus1_iff indexOf_at_index)
  with Cons.IH show ?case by simp
qed

lemma collectMidiNotes_pitch:
  "list_all (\<lambda>n. note_name n = at_index tbl (rowIndex n)) (fst (collectMidiNotes now rnd tbl midi))"
proof -
  have "list_all (\<lambda>n. note_name n = at_index tbl (rowIndex n))
          (fst (fold (\<lambda>track acc. fold (pushMidiNote now rnd tbl) (track_notes track) acc) ts acc))"
    if "list_all (\<lambda>n. note_name n = at_index tbl (rowIndex n)) (fst acc)"
    for ts :: "Track list" and acc
    using that by (induction ts arbitrary: acc) (simp_all add: fold_pushMidiNote_pitch)
  then show ?thesis
    by (simp add: collectMidiNotes_def)
qed

lemma step_keeps_pitch_rows:
  assumes "pitchRowsAgree s" and "e \<noteq> PianoRender" and "namesInTable e (allNotes s)"
  shows "pitchRowsAgree (step e s)"
proof (cases e)
  case (CanvasClick now x y)
  with assms(1) show ?thesis
    by (simp add: pitchRowsAgree_def handleCanvasClick_def Let_def playNote_def list_all_iff
        split: option.split)
next
  case (MouseDown x y)
  with assms(1) show ?thesis
    by (simp add: pitchRowsAgree_def handleMouseDown_def Let_def split: option.split)
next
  case (MouseMove x y)
  with assms(1) show ?thesis
    by (auto simp: pitchRowsAgree_def handleMouseMove_def Let_def list_all_iff
        split: option.split)
next
  case (AddRandomNote now r1 r2 r3)
  with assms(1) show ?thesis
    by (simp add: pitchRowsAgree_def addRandomNote_def Let_def)
next
  case (MidiFileRead now rnd k result)
  show ?thesis
  proof (cases "k < length (pendingImports s)")
    case False
    with assms(1) MidiFileRead show ?thesis by (simp add: fileRead_def)
  next
    case True
    show ?thesis
    proof (cases result)
      case (Inl err)
      with assms(1) MidiFileRead True show ?thesis
        by (simp add: fileRead_def handleMidiUpload_def pitchRowsAgree_def)
    next
      case (Inr midi)
      with MidiFileRead True collectMidiNotes_pitch [of "allNotes s" now rnd midi] show ?thesis
        by (auto simp: fileRead_def handleMidiUpload_def pitchRowsAgree_def split: prod.split)
    qed
  qed
next
  case (AddPythagoreanChords toNote now)
  with assms(1,3) show ?thesis
    by (simp add: pitchRowsAgree_def addPythagoreanChords_def Let_def
        pythagoreanRatios_def enumerate_eq_zip upt_rec indexOf_at_index)
qed (use assms(1,2) in \<open>simp_all add: pitchRowsAgree_def mounted_def
       handleMouseUp_def clearAllNotes_def awaitFile_def handleMidiUpload_def\<close>)

lemma Piano_breaks_pitch_rows:
  "pitchRowsAgree (run [Mounted, CanvasClick 1 5 10] initial_state) \<and>
   \<not> pitchRowsAgree (run [Mounted, CanvasClick 1 5 10, PianoRender] initial_state)"
  by (simp add: run_def pitchRowsAgree_def handleCanvasClick_def Piano_def mounted_def
      initial_state_def Let_def CELL_SIZE_def playNote_def at_index_def covers_def
      allNotes_initial_eq MEASURES_def BEATS_PER_MEASURE_def)

section \<open>Resizing\<close>

lemma resized_resized: "resized i d (resized i d' n) = resized i d n"
  by (simp add: resized_def)

lemma handleMouseMove_resize:
  assumes "notesCanvasRef s" and "isResizing s" and "\<not> isDragging s"
    and "selectedNote s = Some sel"
  shows "handleMouseMove x y s =
           s\<lparr>notesArr := map (resized (note_id sel) (max 1 (\<lfloor>x / CELL_SIZE\<rfloor> - colIndex sel + 1)))
                            (notesArr s)\<rparr>"
  using assms by (simp add: handleMouseMove_def Let_def resized_def [abs_def])

lemma run_snoc: "run (es @ [e]) s = step e (run es s)"
  by (simp add: run_def)

lemma gesture_resize_inv:
  assumes "notesCanvasRef s" and "isResizing s" and "\<not> isDragging s"
    and "selectedNote s = Some sel"
  shows "list_all isPointerMove es \<Longrightarrow>
         \<exists>f tbl. run es s = s\<lparr>notesArr := map f (notesArr s), allNotes := tbl\<rparr> \<and>
                 (\<forall>n d. resized (note_id sel) d (f n) = resized (note_id sel) d n)"
proof (induction es rule: rev_induct)
  case Nil
  have "run [] s = s\<lparr>notesArr := map (\<lambda>n. n) (notesArr s), allNotes := allNotes s\<rparr>"
    by (simp add: run_def)
  then show ?case by blast
next
  case (snoc e es)
  then have "list_all isPointerMove es" and e: "isPointerMove e"
    by simp_all
  with snoc.IH obtain f tbl
    where f: "run es s = s\<lparr>notesArr := map f (notesArr s), allNotes := tbl\<rparr>"
      and ff: "\<And>n d. resized (note_id sel) d (f n) = resized (note_id sel) d n"
    by blast
  let ?s = "s\<lparr>notesArr := map f (notesArr s), allNotes := tbl\<rparr>"
  show ?case
  proof (cases e)
    case PianoRender
    then have "run (es @ [e]) s = s\<lparr>notesArr := map f (notesArr s), allNotes := rev tbl\<rparr>"
      by (simp add: run_snoc f Piano_def)
    with ff show ?thesis by blast
  next
    case (MouseMove x y)
    let ?d = "max 1 (\<lfloor>x / CELL_SIZE\<rfloor> - colIndex sel + 1)"
    have "handleMouseMove x y ?s = ?s\<lparr>notesArr := map (resized (note_id sel) ?d) (notesArr ?s)\<rparr>"
      by (rule handleMouseMove_resize) (simp_all add: assms)
    then have "run (es @ [e]) s
        = s\<lparr>notesArr := map (resized (note_id sel) ?d) (map f (notesArr s)), allNotes := tbl\<rparr>"
      by (simp add: run_snoc f MouseMove)
    also have "map (resized (note_id sel) ?d) (map f (notesArr s))
        = map (resized (note_id sel) ?d) (notesArr s)"
      by (simp add: ff)
    finally have "run (es @ [e]) s
        = s\<lparr>notesArr := map (resized (note_id sel) ?d) (notesArr s), allNotes := tbl\<rparr>" .
    moreover have "\<forall>n d. resized (note_id sel) d (resized (note_id sel) ?d n)
        = resized (note_id sel) d n"
      by (simp add: resized_resized)
    ultimately show ?thesis by blast
  qed (use e in simp_all)
qed

lemma gesture_resize_notes:
  assumes "notesCanvasRef s" and "isResizing s" and "\<not> isDragging s"
    and "selectedNote s = Some sel" and "list_all isPointerMove es"
  shows "notesArr (handleMouseMove x y (run es s))
           = map (resized (note_id sel) (max 1 (\<lfloor>x / CELL_SIZE\<rfloor> - colIndex sel + 1))) (notesArr s)"
proof -
  let ?d = "max 1 (\<lfloor>x / CELL_SIZE\<rfloor> - colIndex sel + 1)"
  from gesture_resize_inv [OF assms]
  obtain f tbl where f: "run es s = s\<lparr>notesArr := map f (notesArr s), allNotes := tbl\<rparr>"
    and ff: "\<And>n d. resized (note_id sel) d (f n) = resized (note_id sel) d n"
    by blast
  let ?s = "s\<lparr>notesArr := map f (notesArr s), allNotes := tbl\<rparr>"
  have "handleMouseMove x y ?s = ?s\<lparr>notesArr := map (resized (note_id sel) ?d) (notesArr ?s)\<rparr>"
    by (rule handleMouseMove_resize) (simp_all add: assms)
  then have "notesArr (handleMouseMove x y (run es s))
      = map (resized (note_id sel) ?d) (map f (notesArr s))"
    by (simp add: f)
  also have "\<dots> = map (resized (note_id sel) ?d) (notesArr s)"
    by (simp add: ff)
  finally show ?thesis .
qed

text \<open>
  Claim C2, as the code has it. A resize gesture is a pointer-down on the resize handle
  of a note while no drag is in progress, followed by pointer moves and the renders they
  cause. After every move the duration of the note is the number of columns from its own
  column to the pointer's column, both counted, and never less than 1: the maximum of 1
  and \<open>\<lfloor>x / CELL_SIZE\<rfloor> - colIndex c + 1\<close>, for every pointer position, left of the
  note included. No other note changes.
\<close>

theorem resize_duration:
  assumes "notesCanvasRef s" and "\<not> isDragging s"
    and "find (covers \<lfloor>y0 / CELL_SIZE\<rfloor> \<lfloor>x0 / CELL_SIZE\<rfloor>) (notesArr s) = Some c"
    and "x0 - of_int (colIndex c) * CELL_SIZE > of_int (duration c) * CELL_SIZE - 5"
    and "list_all isPointerMove es"
  shows "let d = max 1 (\<lfloor>x / CELL_SIZE\<rfloor> - colIndex c + 1);
             s' = handleMouseMove x y (run es (handleMouseDown x0 y0 s))
         in 1 \<le> d \<and>
            notesArr s' = map (\<lambda>n. if note_id n = note_id c then n\<lparr>duration := d\<rparr> else n) (notesArr s) \<and>
            (\<forall>n\<in>set (notesArr s'). note_id n = note_id c \<longrightarrow> duration n = d)"
proof -
  define s1 where "s1 = s\<lparr>selectedNote := Some c, isResizing := True\<rparr>"
  define d where "d = max 1 (\<lfloor>x / CELL_SIZE\<rfloor> - colIndex c + 1)"
  have down: "handleMouseDown x0 y0 s = s1"
    using assms(1,3,4) by (simp add: handleMouseDown_def Let_def s1_def)
  have pre: "notesCanvasRef s1" "isResizing s1" "\<not> isDragging s1" "selectedNote s1 = Some c"
    using assms(1,2) by (simp_all add: s1_def)
  have "notesArr (handleMouseMove x y (run es s1)) = map (resized (note_id c) d) (notesArr s1)"
    unfolding d_def by (rule gesture_resize_notes [OF pre assms(5)])
  then have eq: "notesArr (handleMouseMove x y (run es (handleMouseDown x0 y0 s)))
      = map (\<lambda>n. if note_id n = note_id c then n\<lparr>duration := d\<rparr> else n) (notesArr s)"
    by (simp add: down s1_def resized_def [abs_def])
  have "\<forall>n\<in>set (notesArr (handleMouseMove x y (run es (handleMouseDown x0 y0 s)))).
          note_id n = note_id c \<longrightarrow> duration n = d"
    unfolding eq by auto
  moreover have "1 \<le> d"
    by (simp add: d_def)
  ultimately show ?thesis
    using eq unfolding Let_def d_def [symmetric] by blast
qed

theorem resize_duration_witness:
  "notesCanvasRef demo_state \<and> \<not> isDragging demo_state \<and>
   find (covers \<lfloor>60 / CELL_SIZE\<rfloor> \<lfloor>47 / CELL_SIZE\<rfloor>) (notesArr demo_state)
     = Some (hd (notesArr demo_state)) \<and>
   colIndex (hd (notesArr demo_state)) = 1 \<and>
   list_all isPointerMove [PianoRender, MouseMove 60 60, PianoRender, MouseMove 300 90, PianoRender] \<and>
   map duration (notesArr (handleMouseMove 110 60
      (run [PianoRender, MouseMove 60 60, PianoRender, MouseMove 300 90, PianoRender]
         (handleMouseDown 47 60 demo_state)))) = [4] \<and>
   map duration (notesArr (handleMouseMove 10 60
      (run [PianoRender, MouseMove 60 60, PianoRender, MouseMove 300 90, PianoRender]
         (handleMouseDown 47 60 demo_state)))) = [1]"
proof -
  let ?c = "\<lparr> note_id = NoteId 1, note_name = Some ''D2'', start = 1, duration = 1,
              rowIndex = 2, colIndex = 1, selected = True \<rparr>"
  let ?es = "[PianoRender, MouseMove 60 60, PianoRender, MouseMove 300 90, PianoRender]"
  have c: "notesCanvasRef demo_state" and d: "\<not> isDragging demo_state"
    and f: "find (covers \<lfloor>60 / CELL_SIZE\<rfloor> \<lfloor>47 / CELL_SIZE\<rfloor>) (notesArr demo_state) = Some ?c"
    and h: "47 - of_int (colIndex ?c) * CELL_SIZE > of_int (duration ?c) * CELL_SIZE - 5"
    and m: "list_all isPointerMove ?es"
    by (simp_all add: demo_state_eq CELL_SIZE_def covers_def)
  show ?thesis
    using resize_duration [OF c d f h m, of 110 60] resize_duration [OF c d f h m, of 10 60] f
    by (simp add: demo_state_eq CELL_SIZE_def Let_def)
qed

text \<open>
  The claim C2 as stated, with the duration equal to the distance from the note's column
  to the pointer's column, fails: for the note in column 1 and the pointer in column 4
  the distance is 3 and the duration becomes 4.
\<close>

theorem resize_duration_counterexample:
  "duration (hd (notesArr (run [MouseDown 47 60, PianoRender, MouseMove 110 60] demo_state))) = 4 \<and>
   \<lfloor>110 / CELL_SIZE\<rfloor> = 4 \<and>
   start (hd (notesArr demo_state)) = 1 \<and> colIndex (hd (notesArr demo_state)) = 1 \<and>
   duration (hd (notesArr (run [MouseDown 47 60, PianoRender, MouseMove 110 60] demo_state)))
     \<noteq> max 1 (\<lfloor>110 / CELL_SIZE\<rfloor> - colIndex (hd (notesArr demo_state)))"
  by (simp add: run_def demo_state_eq handleMouseMove_def handleMouseDown_def Piano_def
      CELL_SIZE_def covers_def Let_def)

section \<open>Splitting a duration on the staff\<close>

lemma splitNote_short:
  assumes "0 < d" and "d \<le> 4"
  shows "splitNote baseNote d =
           Inr [\<lparr> clef = ''treble'', keys = [baseNote], vf_duration = getDuration d \<rparr>]"
proof -
  have m: "min d 4 = d"
    using assms(2) by simp
  have "splitNote_loop baseNote d [] =
      splitNote_loop baseNote 0
        [\<lparr> clef = ''treble'', keys = [baseNote], vf_duration = getDuration d \<rparr>]"
    using assms(1) by (subst splitNote_loop.simps) (simp add: Let_def m)
  also have "\<dots> = Inr [\<lparr> clef = ''treble'', keys = [baseNote], vf_duration = getDuration d \<rparr>]"
    by (subst splitNote_loop.simps) simp
  finally show ?thesis
    by (simp add: splitNote_def)
qed

text \<open>A duration of more than 4 beats reaches the tie of the second piece, which throws.\<close>

lemma splitNote_long_throws:
  assumes "4 < d"
  shows "splitNote baseNote d = Inl TypeError"
proof -
  have "splitNote_loop baseNote d [] =
      splitNote_loop baseNote (d - 4)
        [\<lparr> clef = ''treble'', keys = [baseNote], vf_duration = getDuration 4 \<rparr>]"
    using assms by (subst splitNote_loop.simps) (simp add: Let_def)
  also have "\<dots> = Inl TypeError"
    using assms by (subst splitNote_loop.simps) (simp add: Let_def)
  finally show ?thesis
    by (simp add: splitNote_def)
qed

text \<open>
  Claim C8, as the code has it. For a duration \<open>d\<close> in beats that is positive and at most
  4, \<open>splitNote\<close> returns exactly one piece, without a tie, whose symbol is \<open>w\<close> for
  \<open>d = 4\<close>, \<open>h\<close> from 2 on, \<open>q\<close> from 1 on and \<open>8\<close> below 1. The piece lasts at most 4
  beats, and it lasts \<open>d\<close> beats exactly when \<open>d\<close> is 4, 2, 1 or a half.
\<close>

theorem splitNote_one_piece:
  assumes "0 < d" and "d \<le> 4"
  shows "splitNote baseNote d =
           Inr [\<lparr> clef = ''treble'', keys = [baseNote], vf_duration = getDuration d \<rparr>] \<and>
         getDuration d =
           (if d = 4 then ''w'' else if 2 \<le> d then ''h'' else if 1 \<le> d then ''q'' else ''8'') \<and>
         beatsOfSymbol (getDuration d) \<le> 4 \<and>
         (beatsOfSymbol (getDuration d) = d \<longleftrightarrow> d = 4 \<or> d = 2 \<or> d = 1 \<or> d = 1 / 2)"
proof -
  have "getDuration d =
      (if d = 4 then ''w'' else if 2 \<le> d then ''h'' else if 1 \<le> d then ''q'' else ''8'')"
    using assms(2) by (simp add: getDuration_def)
  moreover have "beatsOfSymbol (getDuration d) \<le> 4"
    by (simp add: getDuration_def beatsOfSymbol_def)
  moreover have "beatsOfSymbol (getDuration d) = d \<longleftrightarrow> d = 4 \<or> d = 2 \<or> d = 1 \<or> d = 1 / 2"
    using assms by (auto simp: getDuration_def beatsOfSymbol_def)
  ultimately show ?thesis
    using splitNote_short [OF assms] by simp
qed

theorem splitNote_one_piece_witness:
  "(0::real) < 3 \<and> (3::real) \<le> 4 \<and>
   splitNote ''c/4'' 3 = Inr [\<lparr> clef = ''treble'', keys = [''c/4''], vf_duration = ''h'' \<rparr>] \<and>
   (0::real) < 1 / 4 \<and> (1 / 4 :: real) \<le> 4 \<and>
   splitNote ''c/4'' (1 / 4) = Inr [\<lparr> clef = ''treble'', keys = [''c/4''], vf_duration = ''8'' \<rparr>] \<and>
   splitNote ''c/4'' 4 = Inr [\<lparr> clef = ''treble'', keys = [''c/4''], vf_duration = ''w'' \<rparr>] \<and>
   beatsOfSymbol (getDuration 4) = 4"
  using splitNote_one_piece [of 3 "''c/4''"] splitNote_one_piece [of "1 / 4" "''c/4''"]
    splitNote_one_piece [of 4 "''c/4''"]
  by (simp add: getDuration_def)

text \<open>
  The claim C8 as stated, with the durations of the pieces summing to \<open>d\<close>, fails at
  \<open>d = 3\<close>: the one piece is a half note, which lasts 2 beats.
\<close>

theorem splitNote_sum_counterexample:
  "splitNote ''c/4'' 3 = Inr [\<lparr> clef = ''treble'', keys = [''c/4''], vf_duration = ''h'' \<rparr>] \<and>
   beatsOfSymbol ''h'' = 2 \<and> beatsOfSymbol ''h'' \<noteq> 3"
  by (simp add: splitNote_def splitNote_loop.simps getDuration_def beatsOfSymbol_def Let_def)

section \<open>The frequency of the perfect fifth\<close>

text \<open>
  Claim C9. The frequency the chord generator computes for the Perfect Fifth, the
  binary64 product of 261.63 and 3/2, is the binary64 number nearest to 392.445; it
  differs from 392.445 by at most \<open>1 / 2 ^ 45\<close>, half a unit in the last place. It is
  the number handed to the conversion into a pitch name.
\<close>

theorem perfect_fifth_frequency:
  "fst (pythagoreanRatios ! 1) = ''Perfect Fifth'' \<and>
   snd (pythagoreanRatios ! 1) = 3 / 2 \<and>
   intervalFrequency (snd (pythagoreanRatios ! 1)) = fl64 (392445 / 1000) \<and>
   \<bar>intervalFrequency (snd (pythagoreanRatios ! 1)) - 392445 / 1000\<bar> \<le> 1 / 2 ^ 45 \<and>
   note_name (notesArr (addPythagoreanChords toNote now s) ! (length (notesArr s) + 1))
     = Some (toNote (fl64 (392445 / 1000)))"
proof -
  have r: "pythagoreanRatios ! 1 = (''Perfect Fifth'', 3 / 2)"
    by (simp add: pythagoreanRatios_def fl64_def ilog2.simps round_half_even_def Let_def)
  have f: "intervalFrequency (3 / 2) = 6903965452200837 / 17592186044416"
    by (simp add: intervalFrequency_def baseFrequency_def fl64_def ilog2.simps
        round_half_even_def Let_def)
  have g: "fl64 (78489 / 200) = 6903965452200837 / 17592186044416"
    by (simp add: fl64_def ilog2.simps round_half_even_def Let_def)
  have n: "note_name (notesArr (addPythagoreanChords toNote now s) ! (length (notesArr s) + 1))
     = Some (toNote (intervalFrequency (snd (pythagoreanRatios ! 1))))"
    by (simp add: addPythagoreanChords_def Let_def nth_append pythagoreanRatios_def enumerate_eq_zip upt_rec)
  show ?thesis
    using n by (simp add: r r [unfolded One_nat_def] f g)
qed

end
